theory Spec2Isabelle
  imports Main "HOL-Library.Word"
begin

section \<open>Errors\<close>

text \<open>
  Go's \<open>error\<close> values as the file uses them. \<open>ErrInvalid\<close> is the sentinel the
  two parsers wrap; it is declared in another file of the package, so it is a
  constructor of its own here. \<open>ErrOther\<close> stands for every other sentinel that
  a primitive of the library can return. \<open>Errorf msg e\<close> is
  \<^verbatim>\<open>fmt.Errorf(msg + "%w", e)\<close>: an error with a message that wraps \<open>e\<close>.
\<close>

datatype error = ErrInvalid | ErrOther string | Errorf string error

text \<open>
  \<^verbatim>\<open>errors.Is(err, target)\<close>: follows the chain of wrapped errors and compares
  each link with the target. This is how a caller inspects an error by kind.
\<close>

fun errors_Is :: "error \<Rightarrow> error \<Rightarrow> bool" where
  "errors_Is (Errorf msg e) target = (Errorf msg e = target \<or> errors_Is e target)"
| "errors_Is e target = (e = target)"

section \<open>The regular expression of the descriptor\<close>

text \<open>
  The fragment of Go's regular expressions (RE2 syntax) that \<open>regexInfo\<close> is
  written in: literal text, a repeated character class (\<^verbatim>\<open>[..]+\<close>,
  \<^verbatim>\<open>[..]*\<close>), an optional part (\<^verbatim>\<open>(..)?\<close>), concatenation, and a numbered
  capturing group. A character class is the list of its characters. A Go string
  is a sequence of bytes and so is an Isabelle \<open>string\<close>; the classes below are
  ASCII only, as they are in Go, so a byte above 127 is in none of them.
\<close>

datatype rexp =
    Lit string
  | Plus "char list"
  | Star "char list"
  | Opt rexp
  | Cat rexp rexp
  | Grp nat rexp

text \<open>The words a regular expression describes.\<close>

fun lang :: "rexp \<Rightarrow> string set" where
  "lang (Lit w) = {w}"
| "lang (Plus cs) = {w. w \<noteq> [] \<and> set w \<subseteq> set cs}"
| "lang (Star cs) = {w. set w \<subseteq> set cs}"
| "lang (Opt r) = insert [] (lang r)"
| "lang (Cat r1 r2) = {u @ v | u v. u \<in> lang r1 \<and> v \<in> lang r2}"
| "lang (Grp n r) = lang r"

text \<open>
  The meaning of a regular expression with its groups: \<open>sem r c w c'\<close> says that
  \<open>r\<close> can match the word \<open>w\<close> and that the capture array \<open>c\<close> is then \<open>c'\<close>.
\<close>

fun sem :: "rexp \<Rightarrow> string list \<Rightarrow> string \<Rightarrow> string list \<Rightarrow> bool" where
  "sem (Lit w') c w c' = (w = w' \<and> c' = c)"
| "sem (Plus cs) c w c' = (w \<noteq> [] \<and> set w \<subseteq> set cs \<and> c' = c)"
| "sem (Star cs) c w c' = (set w \<subseteq> set cs \<and> c' = c)"
| "sem (Opt r) c w c' = (sem r c w c' \<or> (w = [] \<and> c' = c))"
| "sem (Cat r1 r2) c w c' = (\<exists>u v c1. w = u @ v \<and> sem r1 c u c1 \<and> sem r2 c1 v c')"
| "sem (Grp n r) c w c' = (\<exists>c1. sem r c w c1 \<and> c' = c1[n := w])"

text \<open>
  The matcher. Go's \<open>regexp\<close> package finds the match a backtracking search
  finds first (leftmost-first): a repetition takes as many characters as it can
  before it gives any back, and an optional part is tried before it is left
  out. \<open>greedy cs s\<close> lists what can remain of \<open>s\<close> after a repetition of the
  class \<open>cs\<close>, longest repetition first; \<open>run r (s, c)\<close> lists, in the order of
  the search, every way \<open>r\<close> matches a prefix of \<open>s\<close>: what remains of \<open>s\<close> and
  the capture array afterwards.
\<close>

fun greedy :: "char list \<Rightarrow> string \<Rightarrow> string list" where
  "greedy cs [] = [[]]"
| "greedy cs (x # xs) = (if x \<in> set cs then greedy cs xs @ [x # xs] else [x # xs])"

fun run :: "rexp \<Rightarrow> string \<times> string list \<Rightarrow> (string \<times> string list) list" where
  "run (Lit w) (s, c) = (if take (length w) s = w then [(drop (length w) s, c)] else [])"
| "run (Plus cs) (s, c) =
     (case s of
        [] \<Rightarrow> []
      | x # xs \<Rightarrow> if x \<in> set cs then map (\<lambda>s'. (s', c)) (greedy cs xs) else [])"
| "run (Star cs) (s, c) = map (\<lambda>s'. (s', c)) (greedy cs s)"
| "run (Opt r) (s, c) = run r (s, c) @ [(s, c)]"
| "run (Cat r1 r2) (s, c) = concat (map (run r2) (run r1 (s, c)))"
| "run (Grp n r) (s, c) =
     map (\<lambda>(s', c'). (s', c'[n := take (length s - length s') s])) (run r (s, c))"

text \<open>
  \<^verbatim>\<open>re.FindStringSubmatch(s)\<close> for a regular expression \<^verbatim>\<open>^body$\<close> with \<open>n\<close>
  groups. Without the flag \<open>m\<close>, \<^verbatim>\<open>^\<close> holds only at the beginning of the text
  and \<^verbatim>\<open>$\<close> only at its end, so the match is a match of the whole of \<open>s\<close>: the
  first way of the search that leaves nothing. The result is \<open>nil\<close> (the empty
  slice) when there is none, and otherwise the slice of \<open>n + 1\<close> strings: the
  match, then the text of each group, empty for a group that took no part.
\<close>

definition FindStringSubmatch :: "rexp \<Rightarrow> nat \<Rightarrow> string \<Rightarrow> string list" where
  "FindStringSubmatch body n s =
     (case filter (\<lambda>(s', c). s' = []) (run body (s, replicate (Suc n) [])) of
        [] \<Rightarrow> []
      | (s', c) # rest \<Rightarrow> c[0 := s])"

text \<open>The classes \<^verbatim>\<open>\d\<close>, \<^verbatim>\<open>\w\<close> and \<^verbatim>\<open>\s\<close> of RE2.\<close>

definition class_d :: "char list" where
  "class_d = ''0123456789''"

definition class_w :: "char list" where
  "class_w = ''0123456789ABCDEFGHIJKLMNOPQRSTUVWXYZ_abcdefghijklmnopqrstuvwxyz''"

definition class_s :: "char list" where
  "class_s = [CHR 0x09, CHR 0x0A, CHR 0x0C, CHR 0x0D, CHR '' '']"

section \<open>common.go\<close>

text \<open>\<^verbatim>\<open>const infoMatches = 4\<close>\<close>

definition infoMatches :: nat where
  "infoMatches = 4"

text \<open>
  \<^verbatim>\<open>var regexInfo = regexp.MustCompile(
    `^Version: (\d+\.\d+\.\d+) Features: ([\w\s]+)? Mode: (\w+)$`)\<close>

  \<open>regexInfo\<close> is what stands between \<^verbatim>\<open>^\<close> and \<^verbatim>\<open>$\<close>; it has three groups.
\<close>

definition regexVersion :: rexp where
  "regexVersion =
     Cat (Plus class_d) (Cat (Lit ''.'') (Cat (Plus class_d) (Cat (Lit ''.'') (Plus class_d))))"

definition regexInfo :: rexp where
  "regexInfo =
     Cat (Lit ''Version: '')
    (Cat (Grp 1 regexVersion)
    (Cat (Lit '' Features: '')
    (Cat (Opt (Grp 2 (Plus (class_w @ class_s))))
    (Cat (Lit '' Mode: '')
         (Grp 3 (Plus class_w))))))"

text \<open>\<^verbatim>\<open>type DbInfo string\<close>, with \<^verbatim>\<open>DbInfo(s)\<close> and \<^verbatim>\<open>string(i)\<close> the conversions.\<close>

datatype DbInfo = DbInfo (string_of: string)

text \<open>\<^verbatim>\<open>func (i DbInfo) String() string { return string(i) }\<close>\<close>

definition String :: "DbInfo \<Rightarrow> string" where
  "String i = string_of i"

text \<open>
  \<^verbatim>\<open>func (i DbInfo) Version() (string, error)\<close>: the first group of the match, or
  the error \<^verbatim>\<open>fmt.Errorf("database info, %w", ErrInvalid)\<close> when the slice
  that \<open>FindStringSubmatch\<close> returns has not the four entries of a match.
\<close>

definition Version :: "DbInfo \<Rightarrow> error + string" where
  "Version i =
     (let matched = FindStringSubmatch regexInfo 3 (string_of i)
      in if length matched \<noteq> infoMatches then Inl (Errorf ''database info, '' ErrInvalid)
         else Inr (matched ! 1))"

text \<open>
  \<^verbatim>\<open>func (i DbInfo) Mode() (ModeFlag, error)\<close>: the same test, then
  \<^verbatim>\<open>ParseModeFlag(matched[3])\<close>. \<open>ParseModeFlag\<close> and the type \<open>ModeFlag\<close> are
  declared in another file of the package; the function is a parameter here.
\<close>

definition Mode :: "(string \<Rightarrow> error + 'mode) \<Rightarrow> DbInfo \<Rightarrow> error + 'mode" where
  "Mode ParseModeFlag i =
     (let matched = FindStringSubmatch regexInfo 3 (string_of i)
      in if length matched \<noteq> infoMatches then Inl (Errorf ''database info, '' ErrInvalid)
         else ParseModeFlag (matched ! 3))"

text \<open>
  The text of a descriptor with the three fields \<open>v\<close>, \<open>f\<close> and \<open>m\<close>, and the
  regular expressions without a group (for them the capture array stays as
  it is). Both serve the statements and proofs below.
\<close>

definition descriptor :: "string \<Rightarrow> string \<Rightarrow> string \<Rightarrow> string" where
  "descriptor v f m = ''Version: '' @ v @ '' Features: '' @ f @ '' Mode: '' @ m"

fun plain :: "rexp \<Rightarrow> bool" where
  "plain (Grp n r) = False"
| "plain (Opt r) = plain r"
| "plain (Cat r1 r2) = (plain r1 \<and> plain r2)"
| "plain r = True"

text \<open>
  The grammar as the specification words it in its section on external
  interfaces, \<^verbatim>\<open>Version: \d+\.\d+\.\d+ Features: [\w\s]* Mode: \w+\<close>, anchored at
  both ends. It is written from the specification, to be compared with
  \<open>regexInfo\<close>, which is written from the source.
\<close>

definition specInfoGrammar :: rexp where
  "specInfoGrammar =
     Cat (Lit ''Version: '')
    (Cat (Cat (Plus class_d) (Cat (Lit ''.'') (Cat (Plus class_d) (Cat (Lit ''.'') (Plus class_d)))))
    (Cat (Lit '' Features: '')
    (Cat (Star (class_w @ class_s))
    (Cat (Lit '' Mode: '')
         (Plus class_w)))))"

subsection \<open>Databases\<close>

text \<open>
  \<open>hsDatabase\<close> is the handle of a compiled database, a pointer into the
  memory of the C library: an address. A Go pointer to a \<open>baseDatabase\<close> is an
  address in the Go heap, \<open>0\<close> for \<open>nil\<close>; the heap is the list of the
  \<open>baseDatabase\<close> values allocated so far, the one at address \<open>p\<close> at index
  \<open>p - 1\<close>. The state of a program is that heap and the state \<open>lib\<close> of the C
  library, of which nothing is known here.
\<close>

datatype hsDatabase = hsDatabase nat

type_synonym pointer = nat

record baseDatabase =
  db :: hsDatabase

record 'm state =
  heap :: "baseDatabase list"
  lib :: 'm

text \<open>
  The two primitives of the binding that the functions below call. They are
  declared in another file of the package and are parameters here: each takes
  the state of the library and returns its results with the new state.
  \<^verbatim>\<open>hsDeserializeDatabase(data) (hsDatabase, error)\<close> and
  \<^verbatim>\<open>hsDeserializeDatabaseAt(data, db) error\<close>; a \<open>nil\<close> error is \<open>None\<close>.
\<close>

record 'm hs =
  hsDeserializeDatabase :: "8 word list \<Rightarrow> 'm \<Rightarrow> (hsDatabase \<times> error option) \<times> 'm"
  hsDeserializeDatabaseAt :: "8 word list \<Rightarrow> hsDatabase \<Rightarrow> 'm \<Rightarrow> error option \<times> 'm"

text \<open>Reading through a pointer: \<open>None\<close> where Go panics (a \<open>nil\<close> or dangling pointer).\<close>

definition deref :: "'m state \<Rightarrow> pointer \<Rightarrow> baseDatabase option" where
  "deref \<sigma> p = (if 0 < p \<and> p \<le> length (heap \<sigma>) then Some (heap \<sigma> ! (p - 1)) else None)"

text \<open>
  \<^verbatim>\<open>func newBaseDatabase(db hsDatabase) *baseDatabase { return &baseDatabase{db} }\<close>:
  a new object at the next address of the heap.
\<close>

definition newBaseDatabase :: "hsDatabase \<Rightarrow> 'm state \<Rightarrow> pointer \<times> 'm state" where
  "newBaseDatabase h \<sigma> = (Suc (length (heap \<sigma>)), \<sigma>\<lparr>heap := heap \<sigma> @ [\<lparr>db = h\<rparr>]\<rparr>)"

text \<open>
  \<^verbatim>\<open>func UnmarshalDatabase(data []byte) (Database, error)\<close>. The result is the
  pair Go returns: the interface value (\<open>None\<close> for \<open>nil\<close>, otherwise the pointer
  it holds) and the error.
\<close>

definition UnmarshalDatabase ::
  "'m hs \<Rightarrow> 8 word list \<Rightarrow> 'm state \<Rightarrow> (pointer option \<times> error option) \<times> 'm state" where
  "UnmarshalDatabase hs data \<sigma> =
     (case hsDeserializeDatabase hs data (lib \<sigma>) of
        ((h, err), l) \<Rightarrow>
          (case err of
             Some e \<Rightarrow> ((None, Some e), \<sigma>\<lparr>lib := l\<rparr>)
           | None \<Rightarrow>
               (case newBaseDatabase h (\<sigma>\<lparr>lib := l\<rparr>) of
                  (p, \<sigma>') \<Rightarrow> ((Some p, None), \<sigma>'))))"

text \<open>
  The three typed databases: \<^verbatim>\<open>type blockDatabase struct { *blockMatcher }\<close> and
  its two siblings. The matchers and scanners and their constructors
  (\<open>newBlockScanner\<close>, \<open>newBlockMatcher\<close>, ...) are declared in other files of the
  package: their types are type variables and the constructors are parameters.
  \<^verbatim>\<open>newBlockDatabase(db) =
    &blockDatabase{newBlockMatcher(newBlockScanner(newBaseDatabase(db)))}\<close>
\<close>

datatype 'matcher blockDatabase = blockDatabase 'matcher

datatype 'matcher streamDatabase = streamDatabase 'matcher

datatype 'matcher vectoredDatabase = vectoredDatabase 'matcher

definition newBlockDatabase ::
  "(pointer \<Rightarrow> 'bs) \<Rightarrow> ('bs \<Rightarrow> 'bm) \<Rightarrow> hsDatabase \<Rightarrow> 'm state \<Rightarrow> 'bm blockDatabase \<times> 'm state" where
  "newBlockDatabase newBlockScanner newBlockMatcher h \<sigma> =
     (case newBaseDatabase h \<sigma> of
        (p, \<sigma>') \<Rightarrow> (blockDatabase (newBlockMatcher (newBlockScanner p)), \<sigma>'))"

definition newStreamDatabase ::
  "(pointer \<Rightarrow> 'ss) \<Rightarrow> ('ss \<Rightarrow> 'sm) \<Rightarrow> hsDatabase \<Rightarrow> 'm state \<Rightarrow> 'sm streamDatabase \<times> 'm state" where
  "newStreamDatabase newStreamScanner newStreamMatcher h \<sigma> =
     (case newBaseDatabase h \<sigma> of
        (p, \<sigma>') \<Rightarrow> (streamDatabase (newStreamMatcher (newStreamScanner p)), \<sigma>'))"

definition newVectoredDatabase ::
  "(pointer \<Rightarrow> 'vs) \<Rightarrow> ('vs \<Rightarrow> 'vm) \<Rightarrow> hsDatabase \<Rightarrow> 'm state \<Rightarrow> 'vm vectoredDatabase \<times> 'm state" where
  "newVectoredDatabase newVectoredScanner newVectoredMatcher h \<sigma> =
     (case newBaseDatabase h \<sigma> of
        (p, \<sigma>') \<Rightarrow> (vectoredDatabase (newVectoredMatcher (newVectoredScanner p)), \<sigma>'))"

text \<open>
  \<^verbatim>\<open>func UnmarshalBlockDatabase(data []byte) (BlockDatabase, error)\<close>,
  \<^verbatim>\<open>func UnmarshalStreamDatabase(data []byte) (StreamDatabase, error)\<close> and
  \<^verbatim>\<open>func UnmarshalVectoredDatabase(data []byte) (VectoredDatabase, error)\<close>.
\<close>

definition UnmarshalBlockDatabase ::
  "'m hs \<Rightarrow> (pointer \<Rightarrow> 'bs) \<Rightarrow> ('bs \<Rightarrow> 'bm) \<Rightarrow> 8 word list \<Rightarrow> 'm state
     \<Rightarrow> ('bm blockDatabase option \<times> error option) \<times> 'm state" where
  "UnmarshalBlockDatabase hs newBlockScanner newBlockMatcher data \<sigma> =
     (case hsDeserializeDatabase hs data (lib \<sigma>) of
        ((h, err), l) \<Rightarrow>
          (case err of
             Some e \<Rightarrow> ((None, Some e), \<sigma>\<lparr>lib := l\<rparr>)
           | None \<Rightarrow>
               (case newBlockDatabase newBlockScanner newBlockMatcher h (\<sigma>\<lparr>lib := l\<rparr>) of
                  (d, \<sigma>') \<Rightarrow> ((Some d, None), \<sigma>'))))"

definition UnmarshalStreamDatabase ::
  "'m hs \<Rightarrow> (pointer \<Rightarrow> 'ss) \<Rightarrow> ('ss \<Rightarrow> 'sm) \<Rightarrow> 8 word list \<Rightarrow> 'm state
     \<Rightarrow> ('sm streamDatabase option \<times> error option) \<times> 'm state" where
  "UnmarshalStreamDatabase hs newStreamScanner newStreamMatcher data \<sigma> =
     (case hsDeserializeDatabase hs data (lib \<sigma>) of
        ((h, err), l) \<Rightarrow>
          (case err of
             Some e \<Rightarrow> ((None, Some e), \<sigma>\<lparr>lib := l\<rparr>)
           | None \<Rightarrow>
               (case newStreamDatabase newStreamScanner newStreamMatcher h (\<sigma>\<lparr>lib := l\<rparr>) of
                  (d, \<sigma>') \<Rightarrow> ((Some d, None), \<sigma>'))))"

definition UnmarshalVectoredDatabase ::
  "'m hs \<Rightarrow> (pointer \<Rightarrow> 'vs) \<Rightarrow> ('vs \<Rightarrow> 'vm) \<Rightarrow> 8 word list \<Rightarrow> 'm state
     \<Rightarrow> ('vm vectoredDatabase option \<times> error option) \<times> 'm state" where
  "UnmarshalVectoredDatabase hs newVectoredScanner newVectoredMatcher data \<sigma> =
     (case hsDeserializeDatabase hs data (lib \<sigma>) of
        ((h, err), l) \<Rightarrow>
          (case err of
             Some e \<Rightarrow> ((None, Some e), \<sigma>\<lparr>lib := l\<rparr>)
           | None \<Rightarrow>
               (case newVectoredDatabase newVectoredScanner newVectoredMatcher h (\<sigma>\<lparr>lib := l\<rparr>) of
                  (d, \<sigma>') \<Rightarrow> ((Some d, None), \<sigma>'))))"

text \<open>
  \<^verbatim>\<open>func (d *baseDatabase) Db() hsDatabase { return d.db }\<close> and
  \<^verbatim>\<open>func (d *baseDatabase) Unmarshal(data []byte) error {
    return hsDeserializeDatabaseAt(data, d.db) }\<close>.
  The receiver is a pointer; reading \<open>d.db\<close> through a pointer that holds no
  object panics, which is the result \<open>None\<close>.
\<close>

definition Db :: "pointer \<Rightarrow> 'm state \<Rightarrow> hsDatabase option" where
  "Db d \<sigma> = (case deref \<sigma> d of None \<Rightarrow> None | Some b \<Rightarrow> Some (db b))"

definition Unmarshal ::
  "'m hs \<Rightarrow> pointer \<Rightarrow> 8 word list \<Rightarrow> 'm state \<Rightarrow> (error option \<times> 'm state) option" where
  "Unmarshal hs d data \<sigma> =
     (case deref \<sigma> d of
        None \<Rightarrow> None
      | Some b \<Rightarrow>
          (case hsDeserializeDatabaseAt hs data (db b) (lib \<sigma>) of
             (err, l) \<Rightarrow> Some (err, \<sigma>\<lparr>lib := l\<rparr>)))"

text \<open>
  A library to run the definitions on: its state counts the databases it holds;
  it refuses the empty byte sequence and takes every other one.
\<close>

definition hs_example :: "nat hs" where
  "hs_example =
     \<lparr>hsDeserializeDatabase = (\<lambda>data n.
        if data = [] then ((hsDatabase 0, Some ErrInvalid), n)
        else ((hsDatabase (Suc n), None), Suc n)),
      hsDeserializeDatabaseAt = (\<lambda>data h n.
        if data = [] then (Some ErrInvalid, n) else (None, n))\<rparr>"

text \<open>A \<open>ParseModeFlag\<close> to run \<open>Mode\<close> on: it knows one mode.\<close>

definition parse_example :: "string \<Rightarrow> error + nat" where
  "parse_example w = (if w = ''BLOCK'' then Inr 1 else Inl (Errorf ''database mode, '' ErrInvalid))"

section \<open>Properties of the matcher\<close>

lemma greedy_self: "s \<in> set (greedy cs s)"
  by (cases s) auto

lemma greedy_set: "set (greedy cs s) = {s'. \<exists>w. s = w @ s' \<and> set w \<subseteq> set cs}"
proof (induction s)
  case Nil
  then show ?case by auto
next
  case (Cons x xs)
  show ?case
  proof (intro set_eqI iffI)
    fix s' assume a: "s' \<in> set (greedy cs (x # xs))"
    show "s' \<in> {s'. \<exists>w. x # xs = w @ s' \<and> set w \<subseteq> set cs}"
    proof (cases "s' = x # xs")
      case True
      then show ?thesis by simp
    next
      case False
      with a have x: "x \<in> set cs" and "s' \<in> set (greedy cs xs)"
        by (auto split: if_splits)
      with Cons.IH obtain w where "xs = w @ s'" "set w \<subseteq> set cs" by blast
      with x have "x # xs = (x # w) @ s' \<and> set (x # w) \<subseteq> set cs" by simp
      then show ?thesis by blast
    qed
  next
    fix s' assume "s' \<in> {s'. \<exists>w. x # xs = w @ s' \<and> set w \<subseteq> set cs}"
    then obtain w where w: "x # xs = w @ s'" "set w \<subseteq> set cs" by blast
    show "s' \<in> set (greedy cs (x # xs))"
    proof (cases w)
      case Nil
      with w have "s' = x # xs" by simp
      then show ?thesis using greedy_self by blast
    next
      case (Cons y ys)
      with w have "xs = ys @ s'" "set ys \<subseteq> set cs" "x \<in> set cs" by auto
      with Cons.IH show ?thesis by auto
    qed
  qed
qed

lemma take_eq_iff_prefix: "(take (length w) s = w) = (\<exists>s'. s = w @ s')"
  by (metis append_eq_conv_conj append_take_drop_id)

lemma run_sem:
  "set (run r (s, c)) = {(s', c'). \<exists>w. s = w @ s' \<and> sem r c w c'}"
proof (induction r arbitrary: s c)
  case (Lit w')
  show ?case by (auto simp: take_eq_iff_prefix)
next
  case (Plus cs)
  show ?case
  proof (cases s)
    case Nil
    then show ?thesis by auto
  next
    case (Cons x xs)
    show ?thesis
    proof (intro set_eqI iffI)
      fix p assume "p \<in> set (run (Plus cs) (s, c))"
      with Cons have x: "x \<in> set cs" and p: "fst p \<in> set (greedy cs xs)" "snd p = c"
        by (auto split: if_splits)
      from p(1) obtain w where "xs = w @ fst p" "set w \<subseteq> set cs"
        unfolding greedy_set by blast
      with x Cons have "s = (x # w) @ fst p \<and> sem (Plus cs) c (x # w) c" by simp
      with p(2) show "p \<in> {(s', c'). \<exists>w. s = w @ s' \<and> sem (Plus cs) c w c'}"
        by (cases p) auto
    next
      fix p assume "p \<in> {(s', c'). \<exists>w. s = w @ s' \<and> sem (Plus cs) c w c'}"
      then obtain w where w: "s = w @ fst p" "w \<noteq> []" "set w \<subseteq> set cs" "snd p = c"
        by auto
      then obtain y ys where ys: "w = y # ys" by (cases w) auto
      with w Cons have "x \<in> set cs" "xs = ys @ fst p" "set ys \<subseteq> set cs" by auto
      then have "x \<in> set cs" "fst p \<in> set (greedy cs xs)" unfolding greedy_set by auto
      with Cons w(4) show "p \<in> set (run (Plus cs) (s, c))"
        by (cases p) auto
    qed
  qed
next
  case (Star cs)
  show ?case by (auto simp: greedy_set)
next
  case (Opt r)
  then show ?case by auto
next
  case (Cat r1 r2)
  show ?case
  proof (intro set_eqI iffI)
    fix p assume "p \<in> set (run (Cat r1 r2) (s, c))"
    then obtain q where q: "q \<in> set (run r1 (s, c))" "p \<in> set (run r2 q)" by auto
    obtain s1 c1 where q_def: "q = (s1, c1)" by (cases q)
    obtain s2 c2 where p_def: "p = (s2, c2)" by (cases p)
    from q(1) q_def Cat.IH(1) obtain u where u: "s = u @ s1" "sem r1 c u c1" by auto
    from q(2) q_def p_def Cat.IH(2) obtain v where v: "s1 = v @ s2" "sem r2 c1 v c2" by auto
    from u v have "s = (u @ v) @ s2 \<and> sem (Cat r1 r2) c (u @ v) c2" by auto
    with p_def show "p \<in> {(s', c'). \<exists>w. s = w @ s' \<and> sem (Cat r1 r2) c w c'}" by blast
  next
    fix p assume "p \<in> {(s', c'). \<exists>w. s = w @ s' \<and> sem (Cat r1 r2) c w c'}"
    then obtain s2 c2 u v c1 where p_def: "p = (s2, c2)" and
      uv: "s = (u @ v) @ s2" "sem r1 c u c1" "sem r2 c1 v c2" by auto
    from uv(1,2) have "(v @ s2, c1) \<in> set (run r1 (s, c))" unfolding Cat.IH(1) by auto
    moreover from uv(3) have "(s2, c2) \<in> set (run r2 (v @ s2, c1))" unfolding Cat.IH(2) by auto
    ultimately show "p \<in> set (run (Cat r1 r2) (s, c))" unfolding p_def by force
  qed
next
  case (Grp n r)
  show ?case
  proof (intro set_eqI iffI)
    fix p assume "p \<in> set (run (Grp n r) (s, c))"
    then obtain s' c1 where q: "(s', c1) \<in> set (run r (s, c))"
      and p_def: "p = (s', c1[n := take (length s - length s') s])" by auto
    from q Grp.IH obtain w where w: "s = w @ s'" "sem r c w c1" by auto
    then have "take (length s - length s') s = w" by simp
    with w p_def show "p \<in> {(s', c'). \<exists>w. s = w @ s' \<and> sem (Grp n r) c w c'}" by auto
  next
    fix p assume "p \<in> {(s', c'). \<exists>w. s = w @ s' \<and> sem (Grp n r) c w c'}"
    then obtain s' w c1 where p_def: "p = (s', c1[n := w])" and
      w: "s = w @ s'" "sem r c w c1" by auto
    then have "(s', c1) \<in> set (run r (s, c))" unfolding Grp.IH by auto
    moreover from w have "take (length s - length s') s = w" by simp
    ultimately show "p \<in> set (run (Grp n r) (s, c))" unfolding p_def by force
  qed
qed

lemma sem_lang: "sem r c w c' \<Longrightarrow> w \<in> lang r"
proof (induction r arbitrary: c w c')
  case (Cat r1 r2)
  then obtain u v c1 where uv: "w = u @ v" "sem r1 c u c1" "sem r2 c1 v c'" by auto
  from uv(2) have "u \<in> lang r1" by (rule Cat.IH(1))
  moreover from uv(3) have "v \<in> lang r2" by (rule Cat.IH(2))
  ultimately show ?case using uv(1) by auto
qed auto

lemma lang_sem: "w \<in> lang r \<Longrightarrow> \<exists>c'. sem r c w c'"
proof (induction r arbitrary: c w)
  case (Cat r1 r2)
  then obtain u v where uv: "w = u @ v" "u \<in> lang r1" "v \<in> lang r2" by auto
  from Cat.IH(1)[OF uv(2)] obtain c1 where "sem r1 c u c1" by blast
  moreover from Cat.IH(2)[OF uv(3)] obtain c2 where "sem r2 c1 v c2" by blast
  ultimately show ?case using uv(1) by auto
next
  case (Opt r)
  then show ?case by (cases "w = []") auto
next
  case (Grp n r)
  then obtain c1 where "sem r c w c1" by auto
  then show ?case by auto
qed auto

lemma plain_sem: "plain r \<Longrightarrow> sem r c w c' = (w \<in> lang r \<and> c' = c)"
proof (induction r arbitrary: c w c')
  case (Cat r1 r2)
  then have 1: "\<And>c w c'. sem r1 c w c' = (w \<in> lang r1 \<and> c' = c)"
    and 2: "\<And>c w c'. sem r2 c w c' = (w \<in> lang r2 \<and> c' = c)" by auto
  show ?case unfolding sem.simps lang.simps 1 2 by blast
qed auto

lemma sem_Cat_Lit: "sem (Cat (Lit l) r) c w c' = (\<exists>v. w = l @ v \<and> sem r c v c')"
  by auto

lemma sem_info_shape:
  assumes "plain rv"
  shows "sem (Cat (Lit l1) (Cat (Grp 1 rv) (Cat (Lit l2) (Cat (Opt (Grp 2 (Plus cs)))
           (Cat (Lit l3) (Grp 3 (Plus cw))))))) [[], [], [], []] s c' =
     (\<exists>v f m. s = l1 @ v @ l2 @ f @ l3 @ m \<and> v \<in> lang rv \<and>
        f \<in> lang (Star cs) \<and> m \<in> lang (Plus cw) \<and> c' = [[], v, f, m])"
  (is "?L = ?R")
proof
  assume ?L
  then obtain t1 where t1: "s = l1 @ t1" and
    "sem (Cat (Grp 1 rv) (Cat (Lit l2) (Cat (Opt (Grp 2 (Plus cs)))
           (Cat (Lit l3) (Grp 3 (Plus cw)))))) [[], [], [], []] t1 c'"
    unfolding sem_Cat_Lit by blast
  then obtain v t2 c1 where t2: "t1 = v @ t2" and v: "sem (Grp 1 rv) [[], [], [], []] v c1" and
    "sem (Cat (Lit l2) (Cat (Opt (Grp 2 (Plus cs)))
           (Cat (Lit l3) (Grp 3 (Plus cw))))) c1 t2 c'"
    unfolding sem.simps(5) [of "Grp 1 rv"] by blast
  then obtain t3 where t3: "t2 = l2 @ t3" and
    "sem (Cat (Opt (Grp 2 (Plus cs))) (Cat (Lit l3) (Grp 3 (Plus cw)))) c1 t3 c'"
    unfolding sem_Cat_Lit by blast
  then obtain f t4 c2 where t4: "t3 = f @ t4" and f: "sem (Opt (Grp 2 (Plus cs))) c1 f c2" and
    "sem (Cat (Lit l3) (Grp 3 (Plus cw))) c2 t4 c'"
    unfolding sem.simps(5) [of "Opt (Grp 2 (Plus cs))"] by blast
  then obtain m where t5: "t4 = l3 @ m" and m: "sem (Grp 3 (Plus cw)) c2 m c'"
    unfolding sem_Cat_Lit by blast
  from v assms have v': "v \<in> lang rv" "c1 = [[], v, [], []]"
    by (auto simp: plain_sem)
  from f v'(2) have f': "set f \<subseteq> set cs" "c2 = [[], v, f, []]" by auto
  from m f'(2) have m': "m \<in> lang (Plus cw)" "c' = [[], v, f, m]" by auto
  from t1 t2 t3 t4 t5 have "s = l1 @ v @ l2 @ f @ l3 @ m" by simp
  with v' f' m' show ?R by auto
next
  assume ?R
  then obtain v f m where
    s: "s = l1 @ v @ l2 @ f @ l3 @ m" and v: "v \<in> lang rv" and
    f: "set f \<subseteq> set cs" and m: "m \<noteq> []" "set m \<subseteq> set cw" and
    c': "c' = [[], v, f, m]" by auto
  have 1: "sem (Grp 1 rv) [[], [], [], []] v [[], v, [], []]"
    using v assms by (simp add: plain_sem)
  have 2: "sem (Opt (Grp 2 (Plus cs))) [[], v, [], []] f [[], v, f, []]"
    using f by (cases "f = []") auto
  have 3: "sem (Grp 3 (Plus cw)) [[], v, f, []] m c'"
    using m c' by simp
  have 4: "sem (Cat (Lit l3) (Grp 3 (Plus cw))) [[], v, f, []] (l3 @ m) c'"
    unfolding sem_Cat_Lit using 3 by blast
  have 5: "sem (Cat (Opt (Grp 2 (Plus cs))) (Cat (Lit l3) (Grp 3 (Plus cw))))
             [[], v, [], []] (f @ l3 @ m) c'"
    unfolding sem.simps(5) [of "Opt (Grp 2 (Plus cs))"] using 2 4 by blast
  have 6: "sem (Cat (Lit l2) (Cat (Opt (Grp 2 (Plus cs))) (Cat (Lit l3) (Grp 3 (Plus cw)))))
             [[], v, [], []] (l2 @ f @ l3 @ m) c'"
    unfolding sem_Cat_Lit using 5 by blast
  have 7: "sem (Cat (Grp 1 rv) (Cat (Lit l2) (Cat (Opt (Grp 2 (Plus cs)))
             (Cat (Lit l3) (Grp 3 (Plus cw)))))) [[], [], [], []] (v @ l2 @ f @ l3 @ m) c'"
    unfolding sem.simps(5) [of "Grp 1 rv"] using 1 6 by blast
  show ?L unfolding sem_Cat_Lit s using 7 by blast
qed

lemma plain_regexVersion: "plain regexVersion"
  by (simp add: regexVersion_def)

lemma sem_regexInfo:
  "sem regexInfo [[], [], [], []] s c' =
     (\<exists>v f m. s = descriptor v f m \<and> v \<in> lang regexVersion \<and>
        f \<in> lang (Star (class_w @ class_s)) \<and> m \<in> lang (Plus class_w) \<and> c' = [[], v, f, m])"
  unfolding regexInfo_def descriptor_def by (rule sem_info_shape [OF plain_regexVersion])

lemma regexVersion_chars: "v \<in> lang regexVersion \<Longrightarrow> CHR '' '' \<notin> set v"
  unfolding regexVersion_def class_d_def by auto

lemma class_w_chars: "m \<in> lang (Plus class_w) \<Longrightarrow> CHR '' '' \<notin> set m"
  unfolding class_w_def by auto

lemma first_split_unique:
  "u @ x # r = u' @ x # r' \<Longrightarrow> x \<notin> set u \<Longrightarrow> x \<notin> set u' \<Longrightarrow> u = u' \<and> r = r'"
proof (induction u arbitrary: u')
  case Nil
  then show ?case by (cases u') auto
next
  case (Cons y ys)
  then show ?case by (cases u') auto
qed

lemma last_split_unique:
  assumes "a @ x # m = a' @ x # m'" "x \<notin> set m" "x \<notin> set m'"
  shows "a = a' \<and> m = m'"
proof -
  from assms(1) have "rev (a @ x # m) = rev (a' @ x # m')" by simp
  then have "rev m @ x # rev a = rev m' @ x # rev a'" by simp
  moreover from assms(2,3) have "x \<notin> set (rev m)" "x \<notin> set (rev m')" by simp_all
  ultimately have "rev m = rev m' \<and> rev a = rev a'"
    by (rule first_split_unique)
  then show ?thesis by simp
qed

lemma shape_unique:
  assumes eq: "l1 @ v @ (x # l2) @ f @ (l3 @ [x]) @ m = l1 @ v' @ (x # l2) @ f' @ (l3 @ [x]) @ m'"
    and "x \<notin> set v" "x \<notin> set v'" "x \<notin> set m" "x \<notin> set m'"
  shows "v = v' \<and> f = f' \<and> m = m'"
proof -
  from eq have "v @ x # (l2 @ f @ l3 @ x # m) = v' @ x # (l2 @ f' @ l3 @ x # m')" by simp
  then have "v = v' \<and> l2 @ f @ l3 @ x # m = l2 @ f' @ l3 @ x # m'"
    using assms(2,3) by (rule first_split_unique)
  then have v: "v = v'" and "(f @ l3) @ x # m = (f' @ l3) @ x # m'" by simp_all
  from this(2) have "f @ l3 = f' @ l3 \<and> m = m'"
    using assms(4,5) by (rule last_split_unique)
  with v show ?thesis by simp
qed

lemma descriptor_unique:
  assumes "descriptor v f m = descriptor v' f' m'"
    and "v \<in> lang regexVersion" "v' \<in> lang regexVersion"
    and "m \<in> lang (Plus class_w)" "m' \<in> lang (Plus class_w)"
  shows "v = v' \<and> f = f' \<and> m = m'"
proof -
  have d: "\<And>v f m. descriptor v f m =
      ''Version: '' @ v @ (CHR '' '' # ''Features: '') @ f @ ('' Mode:'' @ [CHR '' '']) @ m"
    by (simp add: descriptor_def)
  from assms(1) have "''Version: '' @ v @ (CHR '' '' # ''Features: '') @ f @ ('' Mode:'' @ [CHR '' '']) @ m
      = ''Version: '' @ v' @ (CHR '' '' # ''Features: '') @ f' @ ('' Mode:'' @ [CHR '' '']) @ m'"
    unfolding d .
  moreover have "CHR '' '' \<notin> set v" "CHR '' '' \<notin> set v'" "CHR '' '' \<notin> set m" "CHR '' '' \<notin> set m'"
    using assms(2-5) regexVersion_chars class_w_chars by blast+
  ultimately show ?thesis by (rule shape_unique)
qed

lemma FindStringSubmatch_cases:
  "FindStringSubmatch regexInfo 3 s = [] \<and> s \<notin> lang regexInfo \<or>
   (\<exists>v f m. s = descriptor v f m \<and> v \<in> lang regexVersion \<and>
      f \<in> lang (Star (class_w @ class_s)) \<and> m \<in> lang (Plus class_w) \<and>
      FindStringSubmatch regexInfo 3 s = [s, v, f, m])"
proof (cases "filter (\<lambda>(s', c). s' = []) (run regexInfo (s, replicate (Suc 3) []))")
  case Nil
  have "\<not> sem regexInfo [[], [], [], []] s c'" for c'
  proof
    assume "sem regexInfo [[], [], [], []] s c'"
    then have "([], c') \<in> set (run regexInfo (s, [[], [], [], []]))"
      unfolding run_sem by simp
    then have "([], c') \<in> set (filter (\<lambda>(s', c). s' = []) (run regexInfo (s, replicate (Suc 3) [])))"
      by (simp add: numeral_3_eq_3)
    with Nil show False by simp
  qed
  then have "s \<notin> lang regexInfo" using lang_sem by blast
  with Nil show ?thesis by (simp add: FindStringSubmatch_def)
next
  case (Cons p ps)
  obtain s' c' where p: "p = (s', c')" by (cases p)
  from Cons have "p \<in> set (filter (\<lambda>(s', c). s' = []) (run regexInfo (s, [[], [], [], []])))"
    by (simp add: numeral_3_eq_3)
  with p have "s' = []" "(s', c') \<in> set (run regexInfo (s, [[], [], [], []]))" by auto
  then have "sem regexInfo [[], [], [], []] s c'" unfolding run_sem by auto
  then obtain v f m where "s = descriptor v f m" "v \<in> lang regexVersion"
    "f \<in> lang (Star (class_w @ class_s))" "m \<in> lang (Plus class_w)" "c' = [[], v, f, m]"
    unfolding sem_regexInfo by blast
  moreover from Cons p have "FindStringSubmatch regexInfo 3 s = c'[0 := s]"
    by (simp add: FindStringSubmatch_def)
  ultimately show ?thesis by auto
qed

lemma lang_regexInfo:
  "s \<in> lang regexInfo = (\<exists>v f m. s = descriptor v f m \<and> v \<in> lang regexVersion \<and>
      f \<in> lang (Star (class_w @ class_s)) \<and> m \<in> lang (Plus class_w))"
proof -
  have "s \<in> lang regexInfo = (\<exists>c'. sem regexInfo [[], [], [], []] s c')"
    using sem_lang lang_sem by blast
  then show ?thesis unfolding sem_regexInfo by blast
qed

lemma lang_run: "w \<in> lang r = ([] \<in> fst ` set (run r (w, [])))"
proof -
  have "w \<in> lang r = (\<exists>c'. sem r [] w c')" using sem_lang lang_sem by blast
  also have "\<dots> = (\<exists>c'. ([], c') \<in> set (run r (w, [])))" unfolding run_sem by simp
  also have "\<dots> = ([] \<in> fst ` set (run r (w, [])))" by force
  finally show ?thesis .
qed

lemma length_FindStringSubmatch:
  "(length (FindStringSubmatch regexInfo 3 s) \<noteq> infoMatches) = (s \<notin> lang regexInfo)"
proof (cases "s \<in> lang regexInfo")
  case True
  with FindStringSubmatch_cases [of s]
  obtain v f m where "FindStringSubmatch regexInfo 3 s = [s, v, f, m]" by blast
  with True show ?thesis by (simp add: infoMatches_def)
next
  case False
  have "FindStringSubmatch regexInfo 3 s = []"
  proof (rule disjE [OF FindStringSubmatch_cases [of s]])
    assume "FindStringSubmatch regexInfo 3 s = [] \<and> s \<notin> lang regexInfo"
    then show ?thesis by simp
  next
    assume "\<exists>v f m. s = descriptor v f m \<and> v \<in> lang regexVersion \<and>
      f \<in> lang (Star (class_w @ class_s)) \<and> m \<in> lang (Plus class_w) \<and>
      FindStringSubmatch regexInfo 3 s = [s, v, f, m]"
    then have "s \<in> lang regexInfo" unfolding lang_regexInfo by blast
    with False show ?thesis by simp
  qed
  with False show ?thesis by (simp add: infoMatches_def)
qed

lemma FindStringSubmatch_descriptor:
  assumes "v \<in> lang regexVersion" "m \<in> lang (Plus class_w)"
    and "f \<in> lang (Star (class_w @ class_s))"
  shows "FindStringSubmatch regexInfo 3 (descriptor v f m) = [descriptor v f m, v, f, m]"
proof -
  from assms have "descriptor v f m \<in> lang regexInfo" unfolding lang_regexInfo by blast
  with FindStringSubmatch_cases [of "descriptor v f m"]
  obtain v' f' m' where d: "descriptor v f m = descriptor v' f' m'"
    and l: "v' \<in> lang regexVersion" "m' \<in> lang (Plus class_w)"
    and r: "FindStringSubmatch regexInfo 3 (descriptor v f m) = [descriptor v f m, v', f', m']"
    by blast
  from d assms(1) l(1) assms(2) l(2) have "v = v' \<and> f = f' \<and> m = m'"
    by (rule descriptor_unique)
  with r show ?thesis by simp
qed

lemma lang_Cat_cong:
  "lang a = lang a' \<Longrightarrow> lang b = lang b' \<Longrightarrow> lang (Cat a b) = lang (Cat a' b')"
  by simp

lemma lang_Opt_Plus: "lang (Opt (Grp n (Plus cs))) = lang (Star cs)"
  by auto

lemma lang_specInfoGrammar: "lang specInfoGrammar = lang regexInfo"
  unfolding specInfoGrammar_def regexInfo_def regexVersion_def
  by (intro lang_Cat_cong lang_Opt_Plus [symmetric] lang.simps(6) [symmetric] refl)

lemma Version_Mode_descriptor:
  assumes "v \<in> lang regexVersion" "m \<in> lang (Plus class_w)"
    and "f \<in> lang (Star (class_w @ class_s))"
  shows "Version (DbInfo (descriptor v f m)) = Inr v"
    and "Mode ParseModeFlag (DbInfo (descriptor v f m)) = ParseModeFlag m"
  using FindStringSubmatch_descriptor [OF assms]
  by (simp_all add: Version_def Mode_def infoMatches_def)

lemma Version_Mode_nomatch:
  assumes "s \<notin> lang regexInfo"
  shows "Version (DbInfo s) = Inl (Errorf ''database info, '' ErrInvalid)"
    and "Mode ParseModeFlag (DbInfo s) = Inl (Errorf ''database info, '' ErrInvalid)"
  using assms length_FindStringSubmatch [of s]
  by (simp_all add: Version_def Mode_def)

section \<open>The descriptor: \<open>Version\<close> and \<open>Mode\<close>\<close>

text \<open>
  C2. For every string \<open>s\<close> that does not match the three-field grammar of the
  descriptor, \<open>DbInfo(s).Version()\<close> and \<open>DbInfo(s).Mode()\<close> both return the
  error \<^verbatim>\<open>fmt.Errorf("database info, %w", ErrInvalid)\<close>, whatever \<open>ParseModeFlag\<close>
  is, and \<open>errors.Is\<close> finds \<open>ErrInvalid\<close> in it: the kind is read from the
  error itself, not from its message.
\<close>

theorem Version_Mode_invalid:
  assumes "s \<notin> lang regexInfo"
  shows "Version (DbInfo s) = Inl (Errorf ''database info, '' ErrInvalid) \<and>
         Mode ParseModeFlag (DbInfo s) = Inl (Errorf ''database info, '' ErrInvalid) \<and>
         errors_Is (Errorf ''database info, '' ErrInvalid) ErrInvalid"
  using assms length_FindStringSubmatch [of s]
  by (simp add: Version_def Mode_def)

theorem Version_Mode_invalid_witness:
  "''garbage'' \<notin> lang regexInfo \<and>
   Version (DbInfo ''garbage'') = Inl (Errorf ''database info, '' ErrInvalid) \<and>
   Mode parse_example (DbInfo ''garbage'') = Inl (Errorf ''database info, '' ErrInvalid) \<and>
   errors_Is (Errorf ''database info, '' ErrInvalid) ErrInvalid"
proof -
  have h: "''garbage'' \<notin> lang regexInfo"
    unfolding lang_run by code_simp
  show ?thesis using h Version_Mode_invalid [OF h, of parse_example] by simp
qed

text \<open>
  C3. \<open>DbInfo(s).Version()\<close> succeeds exactly when the whole of \<open>s\<close> matches the
  grammar of the specification,
  \<^verbatim>\<open>Version: \d+\.\d+\.\d+ Features: [\w\s]* Mode: \w+\<close>; and a descriptor whose
  Features segment \<open>f\<close> holds no feature word (it is empty or white space only)
  is accepted, with its version returned.
\<close>

theorem Version_succeeds_iff_grammar:
  "((\<exists>v. Version (DbInfo s) = Inr v) = (s \<in> lang specInfoGrammar)) \<and>
   (v \<in> lang regexVersion \<and> set f \<subseteq> set class_s \<and> m \<in> lang (Plus class_w)
      \<longrightarrow> Version (DbInfo (descriptor v f m)) = Inr v)"
proof
  show "(\<exists>v. Version (DbInfo s) = Inr v) = (s \<in> lang specInfoGrammar)"
    unfolding lang_specInfoGrammar using length_FindStringSubmatch [of s]
    by (auto simp: Version_def Let_def)
next
  show "v \<in> lang regexVersion \<and> set f \<subseteq> set class_s \<and> m \<in> lang (Plus class_w)
      \<longrightarrow> Version (DbInfo (descriptor v f m)) = Inr v"
  proof
    assume a: "v \<in> lang regexVersion \<and> set f \<subseteq> set class_s \<and> m \<in> lang (Plus class_w)"
    then have "f \<in> lang (Star (class_w @ class_s))" by auto
    with a have "FindStringSubmatch regexInfo 3 (descriptor v f m) = [descriptor v f m, v, f, m]"
      by (simp add: FindStringSubmatch_descriptor)
    then show "Version (DbInfo (descriptor v f m)) = Inr v"
      by (simp add: Version_def infoMatches_def)
  qed
qed

theorem Version_succeeds_iff_grammar_witness:
  "''Version: 5.4.0 Features:  Mode: BLOCK'' \<in> lang specInfoGrammar \<and>
   ''5.4.0'' \<in> lang regexVersion \<and> set [] \<subseteq> set class_s \<and> ''BLOCK'' \<in> lang (Plus class_w) \<and>
   descriptor ''5.4.0'' [] ''BLOCK'' = ''Version: 5.4.0 Features:  Mode: BLOCK'' \<and>
   Version (DbInfo ''Version: 5.4.0 Features:  Mode: BLOCK'') = Inr ''5.4.0''"
proof -
  have v: "''5.4.0'' \<in> lang regexVersion" unfolding lang_run by code_simp
  have m: "''BLOCK'' \<in> lang (Plus class_w)" unfolding lang_run by code_simp
  have d: "descriptor ''5.4.0'' [] ''BLOCK'' = ''Version: 5.4.0 Features:  Mode: BLOCK''"
    by (simp add: descriptor_def)
  note t = Version_succeeds_iff_grammar
    [of "''Version: 5.4.0 Features:  Mode: BLOCK''" "''5.4.0''" "[]" "''BLOCK''"]
  from t v m have r: "Version (DbInfo ''Version: 5.4.0 Features:  Mode: BLOCK'') = Inr ''5.4.0''"
    unfolding d by simp
  with t have "''Version: 5.4.0 Features:  Mode: BLOCK'' \<in> lang specInfoGrammar" by blast
  with v m d r show ?thesis by simp
qed


text \<open>
  C4. Every string \<open>s\<close> that matches the grammar is, in exactly one way, the text
  \<open>Version: v Features: f Mode: m\<close> with a dotted version \<open>v\<close> and a mode word
  \<open>m\<close>; \<open>DbInfo(s).Version()\<close> returns \<open>v\<close>, the first field, and
  \<open>DbInfo(s).Mode()\<close> returns what \<open>ParseModeFlag\<close> makes of \<open>m\<close>, the third.
\<close>

theorem Version_Mode_fields:
  assumes "s \<in> lang regexInfo"
  shows "\<exists>v f m. s = descriptor v f m \<and>
           v \<in> lang regexVersion \<and> f \<in> lang (Star (class_w @ class_s)) \<and> m \<in> lang (Plus class_w) \<and>
           Version (DbInfo s) = Inr v \<and> Mode ParseModeFlag (DbInfo s) = ParseModeFlag m \<and>
           (\<forall>v' f' m'. s = descriptor v' f' m' \<and> v' \<in> lang regexVersion \<and> m' \<in> lang (Plus class_w)
              \<longrightarrow> v' = v \<and> f' = f \<and> m' = m)"
proof -
  from assms obtain v f m where s: "s = descriptor v f m" and
    l: "v \<in> lang regexVersion" "f \<in> lang (Star (class_w @ class_s))" "m \<in> lang (Plus class_w)"
    unfolding lang_regexInfo by blast
  have "Version (DbInfo s) = Inr v"
    unfolding s using l by (simp add: Version_Mode_descriptor)
  moreover have "Mode ParseModeFlag (DbInfo s) = ParseModeFlag m"
    unfolding s using l by (simp add: Version_Mode_descriptor)
  moreover have "v' = v \<and> f' = f \<and> m' = m"
    if "s = descriptor v' f' m' \<and> v' \<in> lang regexVersion \<and> m' \<in> lang (Plus class_w)"
    for v' f' m'
  proof -
    from that s have "descriptor v' f' m' = descriptor v f m" by simp
    then show ?thesis using that l(1,3) descriptor_unique by blast
  qed
  ultimately show ?thesis using s l by blast
qed

theorem Version_Mode_fields_witness:
  "''Version: 5.4.0 Features: AVX2 Mode: BLOCK'' \<in> lang regexInfo \<and>
   Version (DbInfo ''Version: 5.4.0 Features: AVX2 Mode: BLOCK'') = Inr ''5.4.0'' \<and>
   Mode parse_example (DbInfo ''Version: 5.4.0 Features: AVX2 Mode: BLOCK'') = parse_example ''BLOCK'' \<and>
   parse_example ''BLOCK'' = Inr 1"
proof -
  let ?s = "''Version: 5.4.0 Features: AVX2 Mode: BLOCK''"
  have h: "?s \<in> lang regexInfo" unfolding lang_run by code_simp
  have v: "''5.4.0'' \<in> lang regexVersion" unfolding lang_run by code_simp
  have m: "''BLOCK'' \<in> lang (Plus class_w)" unfolding lang_run by code_simp
  have d: "?s = descriptor ''5.4.0'' ''AVX2'' ''BLOCK''" by (simp add: descriptor_def)
  from Version_Mode_fields [OF h, of parse_example] obtain v' f' m' where
    r: "Version (DbInfo ?s) = Inr v'" "Mode parse_example (DbInfo ?s) = parse_example m'" and
    u: "\<forall>a b c. ?s = descriptor a b c \<and> a \<in> lang regexVersion \<and> c \<in> lang (Plus class_w)
          \<longrightarrow> a = v' \<and> b = f' \<and> c = m'"
    by blast
  from u d v m have "''5.4.0'' = v' \<and> ''AVX2'' = f' \<and> ''BLOCK'' = m'" by blast
  with r h show ?thesis by (simp add: parse_example_def)
qed

text \<open>
  C8. Where \<open>DbInfo(s).Mode()\<close> succeeds, \<open>DbInfo(s).Version()\<close> succeeds too.
  \<open>Mode\<close> fails where \<open>Version\<close> succeeds in one case only: the descriptor
  matches and \<open>ParseModeFlag\<close> refuses the mode word it captured.
\<close>

theorem Mode_succeeds_Version_succeeds:
  "(Mode ParseModeFlag i = Inr x \<longrightarrow> (\<exists>v. Version i = Inr v)) \<and>
   (((\<exists>v. Version i = Inr v) \<and> (\<exists>e. Mode ParseModeFlag i = Inl e)) =
    (\<exists>v f m e. string_of i = descriptor v f m \<and> v \<in> lang regexVersion \<and>
        f \<in> lang (Star (class_w @ class_s)) \<and> m \<in> lang (Plus class_w) \<and>
        ParseModeFlag m = Inl e))"
proof -
  obtain s where i: "i = DbInfo s" by (cases i)
  show ?thesis
  proof (cases "s \<in> lang regexInfo")
    case True
    then obtain v f m where s: "s = descriptor v f m" and
      l: "v \<in> lang regexVersion" "f \<in> lang (Star (class_w @ class_s))" "m \<in> lang (Plus class_w)"
      unfolding lang_regexInfo by blast
    have V: "Version i = Inr v"
      unfolding i s using l by (simp add: Version_Mode_descriptor)
    have M: "Mode ParseModeFlag i = ParseModeFlag m"
      unfolding i s using l by (simp add: Version_Mode_descriptor)
    have "(\<exists>e. ParseModeFlag m = Inl e) =
      (\<exists>v' f' m' e. s = descriptor v' f' m' \<and> v' \<in> lang regexVersion \<and>
        f' \<in> lang (Star (class_w @ class_s)) \<and> m' \<in> lang (Plus class_w) \<and>
        ParseModeFlag m' = Inl e)" (is "?A = ?B")
    proof
      assume ?A with s l show ?B by blast
    next
      assume ?B
      then obtain v' f' m' e where d: "s = descriptor v' f' m'" "v' \<in> lang regexVersion"
        "m' \<in> lang (Plus class_w)" "ParseModeFlag m' = Inl e" by blast
      from d(1) s have "descriptor v' f' m' = descriptor v f m" by simp
      then have "v' = v \<and> f' = f \<and> m' = m"
        using d(2) l(1) d(3) l(3) by (rule descriptor_unique)
      with d(4) show ?A by blast
    qed
    with V M show ?thesis by (simp add: i)
  next
    case False
    then have V: "Version i = Inl (Errorf ''database info, '' ErrInvalid)"
      and M: "Mode ParseModeFlag i = Inl (Errorf ''database info, '' ErrInvalid)"
      unfolding i by (simp_all add: Version_Mode_nomatch)
    from False have "\<not> (\<exists>v f m e. s = descriptor v f m \<and> v \<in> lang regexVersion \<and>
        f \<in> lang (Star (class_w @ class_s)) \<and> m \<in> lang (Plus class_w) \<and>
        ParseModeFlag m = Inl e)"
      unfolding lang_regexInfo by blast
    with V M show ?thesis by (simp add: i)
  qed
qed

theorem Mode_succeeds_Version_succeeds_witness:
  "Mode parse_example (DbInfo ''Version: 5.4.0 Features: AVX2 Mode: BLOCK'') = Inr 1 \<and>
   Version (DbInfo ''Version: 5.4.0 Features: AVX2 Mode: BLOCK'') = Inr ''5.4.0'' \<and>
   Version (DbInfo ''Version: 5.4.0 Features: AVX2 Mode: FOO'') = Inr ''5.4.0'' \<and>
   Mode parse_example (DbInfo ''Version: 5.4.0 Features: AVX2 Mode: FOO'')
     = Inl (Errorf ''database mode, '' ErrInvalid) \<and>
   (\<exists>v f m e. ''Version: 5.4.0 Features: AVX2 Mode: FOO'' = descriptor v f m \<and>
      v \<in> lang regexVersion \<and> f \<in> lang (Star (class_w @ class_s)) \<and> m \<in> lang (Plus class_w) \<and>
      parse_example m = Inl e)"
proof -
  let ?ok = "DbInfo ''Version: 5.4.0 Features: AVX2 Mode: BLOCK''"
  let ?foo = "DbInfo ''Version: 5.4.0 Features: AVX2 Mode: FOO''"
  have m: "Mode parse_example ?ok = Inr 1" by code_simp
  with Mode_succeeds_Version_succeeds [of parse_example ?ok 1]
  obtain v where v: "Version ?ok = Inr v" by blast
  have "Version ?ok = Inr ''5.4.0''" by code_simp
  moreover have f: "Version ?foo = Inr ''5.4.0''"
    "Mode parse_example ?foo = Inl (Errorf ''database mode, '' ErrInvalid)" by code_simp+
  moreover from f Mode_succeeds_Version_succeeds [of parse_example ?foo 1]
  have "\<exists>v f m e. string_of ?foo = descriptor v f m \<and>
      v \<in> lang regexVersion \<and> f \<in> lang (Star (class_w @ class_s)) \<and> m \<in> lang (Plus class_w) \<and>
      parse_example m = Inl e" by blast
  ultimately show ?thesis using m by simp
qed

text \<open>
  C10. \<open>DbInfo(s).String()\<close> is \<open>s\<close>: the conversion to \<open>DbInfo\<close> and back is the
  identity.
\<close>

theorem String_DbInfo: "String (DbInfo s) = s"
  by (simp add: String_def)


section \<open>Deserialization\<close>

text \<open>
  C6. Each of \<open>UnmarshalDatabase\<close>, \<open>UnmarshalBlockDatabase\<close>,
  \<open>UnmarshalStreamDatabase\<close> and \<open>UnmarshalVectoredDatabase\<close> returns a database
  that is not \<open>nil\<close> exactly when it returns a \<open>nil\<close> error. When the library
  refuses the bytes with an error \<open>e\<close>, each returns \<open>nil\<close> with that same error
  and allocates no database. When the library takes the bytes and returns the
  handle \<open>h\<close>, each returns, with a \<open>nil\<close> error, a database built on a pointer
  \<open>p\<close> that held no object before and now holds the \<open>baseDatabase\<close> with the
  handle \<open>h\<close>, the one object added to the heap.
\<close>

theorem Unmarshal_database_iff_no_error:
  "((fst (fst (UnmarshalDatabase hs data \<sigma>)) \<noteq> None) =
      (snd (fst (UnmarshalDatabase hs data \<sigma>)) = None)) \<and>
   ((fst (fst (UnmarshalBlockDatabase hs bs bm data \<sigma>)) \<noteq> None) =
      (snd (fst (UnmarshalBlockDatabase hs bs bm data \<sigma>)) = None)) \<and>
   ((fst (fst (UnmarshalStreamDatabase hs ss sm data \<sigma>)) \<noteq> None) =
      (snd (fst (UnmarshalStreamDatabase hs ss sm data \<sigma>)) = None)) \<and>
   ((fst (fst (UnmarshalVectoredDatabase hs vs vm data \<sigma>)) \<noteq> None) =
      (snd (fst (UnmarshalVectoredDatabase hs vs vm data \<sigma>)) = None)) \<and>
   (snd (fst (hsDeserializeDatabase hs data (lib \<sigma>))) = Some e \<longrightarrow>
      fst (UnmarshalDatabase hs data \<sigma>) = (None, Some e) \<and>
      fst (UnmarshalBlockDatabase hs bs bm data \<sigma>) = (None, Some e) \<and>
      fst (UnmarshalStreamDatabase hs ss sm data \<sigma>) = (None, Some e) \<and>
      fst (UnmarshalVectoredDatabase hs vs vm data \<sigma>) = (None, Some e) \<and>
      heap (snd (UnmarshalDatabase hs data \<sigma>)) = heap \<sigma> \<and>
      heap (snd (UnmarshalBlockDatabase hs bs bm data \<sigma>)) = heap \<sigma> \<and>
      heap (snd (UnmarshalStreamDatabase hs ss sm data \<sigma>)) = heap \<sigma> \<and>
      heap (snd (UnmarshalVectoredDatabase hs vs vm data \<sigma>)) = heap \<sigma>) \<and>
   (fst (hsDeserializeDatabase hs data (lib \<sigma>)) = (h, None) \<longrightarrow>
      (\<exists>p. fst (UnmarshalDatabase hs data \<sigma>) = (Some p, None) \<and>
           deref \<sigma> p = None \<and>
           deref (snd (UnmarshalDatabase hs data \<sigma>)) p = Some \<lparr>db = h\<rparr> \<and>
           Db p (snd (UnmarshalDatabase hs data \<sigma>)) = Some h \<and>
           heap (snd (UnmarshalDatabase hs data \<sigma>)) = heap \<sigma> @ [\<lparr>db = h\<rparr>]) \<and>
      (\<exists>p. fst (UnmarshalBlockDatabase hs bs bm data \<sigma>) = (Some (blockDatabase (bm (bs p))), None) \<and>
           deref \<sigma> p = None \<and>
           deref (snd (UnmarshalBlockDatabase hs bs bm data \<sigma>)) p = Some \<lparr>db = h\<rparr> \<and>
           Db p (snd (UnmarshalBlockDatabase hs bs bm data \<sigma>)) = Some h \<and>
           heap (snd (UnmarshalBlockDatabase hs bs bm data \<sigma>)) = heap \<sigma> @ [\<lparr>db = h\<rparr>]) \<and>
      (\<exists>p. fst (UnmarshalStreamDatabase hs ss sm data \<sigma>) = (Some (streamDatabase (sm (ss p))), None) \<and>
           deref \<sigma> p = None \<and>
           deref (snd (UnmarshalStreamDatabase hs ss sm data \<sigma>)) p = Some \<lparr>db = h\<rparr> \<and>
           Db p (snd (UnmarshalStreamDatabase hs ss sm data \<sigma>)) = Some h \<and>
           heap (snd (UnmarshalStreamDatabase hs ss sm data \<sigma>)) = heap \<sigma> @ [\<lparr>db = h\<rparr>]) \<and>
      (\<exists>p. fst (UnmarshalVectoredDatabase hs vs vm data \<sigma>)
             = (Some (vectoredDatabase (vm (vs p))), None) \<and>
           deref \<sigma> p = None \<and>
           deref (snd (UnmarshalVectoredDatabase hs vs vm data \<sigma>)) p = Some \<lparr>db = h\<rparr> \<and>
           Db p (snd (UnmarshalVectoredDatabase hs vs vm data \<sigma>)) = Some h \<and>
           heap (snd (UnmarshalVectoredDatabase hs vs vm data \<sigma>)) = heap \<sigma> @ [\<lparr>db = h\<rparr>]))"
proof (intro conjI impI)
  assume "fst (hsDeserializeDatabase hs data (lib \<sigma>)) = (h, None)"
  then obtain l where s: "hsDeserializeDatabase hs data (lib \<sigma>) = ((h, None), l)"
    by (cases "hsDeserializeDatabase hs data (lib \<sigma>)") simp
  let ?p = "Suc (length (heap \<sigma>))"
  from s show "\<exists>p. fst (UnmarshalDatabase hs data \<sigma>) = (Some p, None) \<and>
           deref \<sigma> p = None \<and>
           deref (snd (UnmarshalDatabase hs data \<sigma>)) p = Some \<lparr>db = h\<rparr> \<and>
           Db p (snd (UnmarshalDatabase hs data \<sigma>)) = Some h \<and>
           heap (snd (UnmarshalDatabase hs data \<sigma>)) = heap \<sigma> @ [\<lparr>db = h\<rparr>]"
    by (intro exI [of _ ?p])
      (simp add: UnmarshalDatabase_def newBaseDatabase_def deref_def Db_def)
  from s show "\<exists>p. fst (UnmarshalBlockDatabase hs bs bm data \<sigma>)
             = (Some (blockDatabase (bm (bs p))), None) \<and>
           deref \<sigma> p = None \<and>
           deref (snd (UnmarshalBlockDatabase hs bs bm data \<sigma>)) p = Some \<lparr>db = h\<rparr> \<and>
           Db p (snd (UnmarshalBlockDatabase hs bs bm data \<sigma>)) = Some h \<and>
           heap (snd (UnmarshalBlockDatabase hs bs bm data \<sigma>)) = heap \<sigma> @ [\<lparr>db = h\<rparr>]"
    by (intro exI [of _ ?p])
      (simp add: UnmarshalBlockDatabase_def newBlockDatabase_def newBaseDatabase_def deref_def
        Db_def)
  from s show "\<exists>p. fst (UnmarshalStreamDatabase hs ss sm data \<sigma>)
             = (Some (streamDatabase (sm (ss p))), None) \<and>
           deref \<sigma> p = None \<and>
           deref (snd (UnmarshalStreamDatabase hs ss sm data \<sigma>)) p = Some \<lparr>db = h\<rparr> \<and>
           Db p (snd (UnmarshalStreamDatabase hs ss sm data \<sigma>)) = Some h \<and>
           heap (snd (UnmarshalStreamDatabase hs ss sm data \<sigma>)) = heap \<sigma> @ [\<lparr>db = h\<rparr>]"
    by (intro exI [of _ ?p])
      (simp add: UnmarshalStreamDatabase_def newStreamDatabase_def newBaseDatabase_def deref_def
        Db_def)
  from s show "\<exists>p. fst (UnmarshalVectoredDatabase hs vs vm data \<sigma>)
             = (Some (vectoredDatabase (vm (vs p))), None) \<and>
           deref \<sigma> p = None \<and>
           deref (snd (UnmarshalVectoredDatabase hs vs vm data \<sigma>)) p = Some \<lparr>db = h\<rparr> \<and>
           Db p (snd (UnmarshalVectoredDatabase hs vs vm data \<sigma>)) = Some h \<and>
           heap (snd (UnmarshalVectoredDatabase hs vs vm data \<sigma>)) = heap \<sigma> @ [\<lparr>db = h\<rparr>]"
    by (intro exI [of _ ?p])
      (simp add: UnmarshalVectoredDatabase_def newVectoredDatabase_def newBaseDatabase_def
        deref_def Db_def)
qed (auto simp: UnmarshalDatabase_def UnmarshalBlockDatabase_def UnmarshalStreamDatabase_def
      UnmarshalVectoredDatabase_def newBlockDatabase_def newStreamDatabase_def
      newVectoredDatabase_def newBaseDatabase_def split: prod.splits option.splits)

theorem Unmarshal_database_iff_no_error_witness:
  "snd (fst (hsDeserializeDatabase hs_example [] (lib \<lparr>heap = [], lib = 0\<rparr>))) = Some ErrInvalid \<and>
   fst (UnmarshalDatabase hs_example [] \<lparr>heap = [], lib = 0\<rparr>) = (None, Some ErrInvalid) \<and>
   fst (UnmarshalBlockDatabase hs_example id id [] \<lparr>heap = [], lib = 0\<rparr>) = (None, Some ErrInvalid) \<and>
   heap (snd (UnmarshalDatabase hs_example [] \<lparr>heap = [], lib = 0\<rparr>)) = [] \<and>
   fst (hsDeserializeDatabase hs_example [1, 2] (lib \<lparr>heap = [], lib = 0\<rparr>)) = (hsDatabase 1, None) \<and>
   fst (UnmarshalDatabase hs_example [1, 2] \<lparr>heap = [], lib = 0\<rparr>) = (Some 1, None) \<and>
   deref (snd (UnmarshalDatabase hs_example [1, 2] \<lparr>heap = [], lib = 0\<rparr>)) 1
     = Some \<lparr>db = hsDatabase 1\<rparr> \<and>
   fst (UnmarshalStreamDatabase hs_example id id [1, 2] \<lparr>heap = [], lib = 0\<rparr>)
     = (Some (streamDatabase 1), None) \<and>
   deref (snd (UnmarshalStreamDatabase hs_example id id [1, 2] \<lparr>heap = [], lib = 0\<rparr>)) 1
     = Some \<lparr>db = hsDatabase 1\<rparr>"
proof -
  have h: "snd (fst (hsDeserializeDatabase hs_example [] (lib \<lparr>heap = [], lib = 0::nat\<rparr>)))
      = Some ErrInvalid"
    by (simp add: hs_example_def)
  have s: "fst (hsDeserializeDatabase hs_example [1, 2] (lib \<lparr>heap = [], lib = 0::nat\<rparr>))
      = (hsDatabase 1, None)"
    by (simp add: hs_example_def)
  note fail = Unmarshal_database_iff_no_error
    [of hs_example "[]" "\<lparr>heap = [], lib = 0\<rparr>" id id id id id id ErrInvalid]
  note ok = Unmarshal_database_iff_no_error
    [of hs_example "[1, 2]" "\<lparr>heap = [], lib = 0\<rparr>" id id id id id id _ "hsDatabase 1"]
  from ok s obtain p q where
    p: "fst (UnmarshalDatabase hs_example [1, 2] \<lparr>heap = [], lib = 0\<rparr>) = (Some p, None)"
       "deref (snd (UnmarshalDatabase hs_example [1, 2] \<lparr>heap = [], lib = 0\<rparr>)) p
          = Some \<lparr>db = hsDatabase 1\<rparr>" and
    q: "fst (UnmarshalStreamDatabase hs_example id id [1, 2] \<lparr>heap = [], lib = 0\<rparr>)
          = (Some (streamDatabase (id (id q))), None)"
       "deref (snd (UnmarshalStreamDatabase hs_example id id [1, 2] \<lparr>heap = [], lib = 0\<rparr>)) q
          = Some \<lparr>db = hsDatabase 1\<rparr>"
    by blast
  have v: "fst (UnmarshalDatabase hs_example [1, 2] \<lparr>heap = [], lib = 0\<rparr>) = (Some 1, None)"
    "fst (UnmarshalStreamDatabase hs_example id id [1, 2] \<lparr>heap = [], lib = 0\<rparr>)
     = (Some (streamDatabase 1), None)"
    by (simp_all add: hs_example_def UnmarshalDatabase_def UnmarshalStreamDatabase_def
        newStreamDatabase_def newBaseDatabase_def)
  from p(1) v(1) have "p = 1" by simp
  moreover from q(1) v(2) have "q = 1" by simp
  ultimately show ?thesis using h s fail p(2) q(2) v by simp
qed

text \<open>
  C7. For an existing database \<open>d\<close>, \<open>d.Unmarshal(data)\<close> returns without a
  panic; it hands the library the handle \<open>d.db\<close> as the place to reconstruct
  into and returns the library's error; the Go heap is afterwards what it was
  (no database has been allocated) and \<open>d.Db()\<close> is the same handle as before.
\<close>

theorem Unmarshal_reuses_storage:
  assumes "deref \<sigma> d = Some b"
  shows "\<exists>err \<sigma>'. Unmarshal hs d data \<sigma> = Some (err, \<sigma>') \<and>
           heap \<sigma>' = heap \<sigma> \<and> Db d \<sigma>' = Db d \<sigma> \<and> Db d \<sigma> = Some (db b) \<and>
           (err, lib \<sigma>') = hsDeserializeDatabaseAt hs data (db b) (lib \<sigma>)"
proof -
  obtain err l where p: "hsDeserializeDatabaseAt hs data (db b) (lib \<sigma>) = (err, l)"
    by (cases "hsDeserializeDatabaseAt hs data (db b) (lib \<sigma>)")
  have "Unmarshal hs d data \<sigma> = Some (err, \<sigma>\<lparr>lib := l\<rparr>)"
    using assms p by (simp add: Unmarshal_def)
  moreover have "heap (\<sigma>\<lparr>lib := l\<rparr>) = heap \<sigma>" by simp
  moreover have "Db d (\<sigma>\<lparr>lib := l\<rparr>) = Db d \<sigma>" by (simp add: Db_def deref_def)
  moreover have "Db d \<sigma> = Some (db b)" using assms by (simp add: Db_def)
  moreover have "(err, lib (\<sigma>\<lparr>lib := l\<rparr>)) = hsDeserializeDatabaseAt hs data (db b) (lib \<sigma>)"
    using p by simp
  ultimately show ?thesis by blast
qed

theorem Unmarshal_reuses_storage_witness:
  "deref \<lparr>heap = [\<lparr>db = hsDatabase 7\<rparr>], lib = 1::nat\<rparr> 1 = Some \<lparr>db = hsDatabase 7\<rparr> \<and>
   Unmarshal hs_example 1 [1, 2] \<lparr>heap = [\<lparr>db = hsDatabase 7\<rparr>], lib = 1\<rparr>
     = Some (None, \<lparr>heap = [\<lparr>db = hsDatabase 7\<rparr>], lib = 1\<rparr>) \<and>
   Db 1 \<lparr>heap = [\<lparr>db = hsDatabase 7\<rparr>], lib = 1::nat\<rparr> = Some (hsDatabase 7)"
proof -
  have h: "deref \<lparr>heap = [\<lparr>db = hsDatabase 7\<rparr>], lib = 1::nat\<rparr> 1 = Some \<lparr>db = hsDatabase 7\<rparr>"
    by (simp add: deref_def)
  from Unmarshal_reuses_storage [OF h, of hs_example "[1, 2]"] h
  show ?thesis by (auto simp: hs_example_def)
qed

text \<open>
  C9. On the same bytes and from the same state, the three typed constructors
  return the same error, the one \<open>hsDeserializeDatabase\<close> returns: no mode is
  looked at, and one of them returns a database exactly when the others do.
\<close>

theorem Unmarshal_typed_same_error:
  "snd (fst (UnmarshalBlockDatabase hs bs bm data \<sigma>)) = snd (fst (hsDeserializeDatabase hs data (lib \<sigma>))) \<and>
   snd (fst (UnmarshalStreamDatabase hs ss sm data \<sigma>)) = snd (fst (hsDeserializeDatabase hs data (lib \<sigma>))) \<and>
   snd (fst (UnmarshalVectoredDatabase hs vs vm data \<sigma>)) = snd (fst (hsDeserializeDatabase hs data (lib \<sigma>))) \<and>
   ((fst (fst (UnmarshalBlockDatabase hs bs bm data \<sigma>)) = None) =
      (fst (fst (UnmarshalStreamDatabase hs ss sm data \<sigma>)) = None)) \<and>
   ((fst (fst (UnmarshalStreamDatabase hs ss sm data \<sigma>)) = None) =
      (fst (fst (UnmarshalVectoredDatabase hs vs vm data \<sigma>)) = None))"
  by (simp add: UnmarshalBlockDatabase_def UnmarshalStreamDatabase_def
      UnmarshalVectoredDatabase_def newBlockDatabase_def newStreamDatabase_def
      newVectoredDatabase_def newBaseDatabase_def split: prod.splits option.splits)


end
